theory Spec2Isabelle
  imports Complex_Main
begin

section \<open>k-out-of-n reliability: the classical benchmark and the batch statistics\<close>

text \<open>
  The development follows \<^verbatim>\<open>qiskit_koon_mcx.py\<close>. Python floats are read as real
  numbers: every operation is the exact one, rounding is not part of the model. Python
  integers are \<^typ>\<open>int\<close>. A float operation without a real value (numpy's
  \<^verbatim>\<open>nan\<close> and \<^verbatim>\<open>inf\<close>: the mean of an empty array, a division by zero)
  is \<^const>\<open>None\<close> in \<^typ>\<open>real option\<close>, and \<^const>\<open>None\<close> propagates through the
  arithmetic that follows, as \<^verbatim>\<open>nan\<close> does.
\<close>

subsection \<open>The enumeration of assignments\<close>

text \<open>
  \<^verbatim>\<open>itertools.product(pool, repeat=n)\<close>, after its reference implementation:
  \<^verbatim>\<open>
  result = [[]]
  for pool in pools:
      result = [x+[y] for x in result for y in pool]
  \<close>
  with \<open>n\<close> copies of the same pool. The tuples come in lexicographic order.
\<close>

fun product_repeat :: "'a list \<Rightarrow> nat \<Rightarrow> 'a list list" where
  "product_repeat pool 0 = [[]]"
| "product_repeat pool (Suc n) =
     concat (map (\<lambda>x. map (\<lambda>y. x @ [y]) pool) (product_repeat pool n))"

subsection \<open>The classical benchmark\<close>

text \<open>
  The inner loop of \<^verbatim>\<open>k_out_of_n_variable_p_reliability\<close>:
  \<^verbatim>\<open>
  prob = 1.0
  for bit, p_i in zip(bits, p_list):
      prob *= p_i if bit == 1 else (1 - p_i)
  \<close>
\<close>

definition bits_prob :: "int list \<Rightarrow> real list \<Rightarrow> real" where
  "bits_prob bits p_list =
     foldl (\<lambda>prob (bit, p_i). prob * (if bit = 1 then p_i else 1 - p_i)) 1 (zip bits p_list)"

text \<open>
  The function itself: the loop over \<^verbatim>\<open>product([0, 1], repeat=n)\<close> adds the
  probability of every assignment whose bits sum to at least \<open>k\<close>.
\<close>

definition k_out_of_n_variable_p_reliability :: "real list \<Rightarrow> int \<Rightarrow> real" where
  "k_out_of_n_variable_p_reliability p_list k =
     (let n = length p_list in
      foldl (\<lambda>total_prob bits.
               if sum_list bits \<ge> k then total_prob + bits_prob bits p_list else total_prob)
        0 (product_repeat [0, 1] n))"

text \<open>
  The statement of the specification, in its own words: the sum, over all bit assignments
  of length \<open>n\<close> with at least \<open>k\<close> ones, of the product over the components of
  \<open>p_i\<close> where the bit is 1 and \<open>1 - p_i\<close> where it is 0.
\<close>

definition assignments :: "nat \<Rightarrow> int list set" where
  "assignments n = {bits. length bits = n \<and> set bits \<subseteq> {0, 1}}"

definition spec_reliability :: "real list \<Rightarrow> int \<Rightarrow> real" where
  "spec_reliability p_list k =
     (\<Sum>bits \<in> {bits \<in> assignments (length p_list). k \<le> int (count_list bits 1)}.
        \<Prod>i<length p_list. if bits ! i = 1 then p_list ! i else 1 - p_list ! i)"

subsection \<open>Float arithmetic with undefined results\<close>

text \<open>
  The arithmetic of \<^verbatim>\<open>run_simulation\<close> on values that may be undefined. numpy does
  not raise on a division by zero or on the mean of an empty array: it warns and yields
  \<^verbatim>\<open>inf\<close> or \<^verbatim>\<open>nan\<close>, which every later operation hands on.
\<close>

definition np_add :: "real option \<Rightarrow> real option \<Rightarrow> real option" where
  "np_add a b = (case (a, b) of (Some x, Some y) \<Rightarrow> Some (x + y) | _ \<Rightarrow> None)"

definition np_sub :: "real option \<Rightarrow> real option \<Rightarrow> real option" where
  "np_sub a b = (case (a, b) of (Some x, Some y) \<Rightarrow> Some (x - y) | _ \<Rightarrow> None)"

definition np_mul :: "real option \<Rightarrow> real option \<Rightarrow> real option" where
  "np_mul a b = (case (a, b) of (Some x, Some y) \<Rightarrow> Some (x * y) | _ \<Rightarrow> None)"

definition np_div :: "real option \<Rightarrow> real option \<Rightarrow> real option" where
  "np_div a b =
     (case (a, b) of (Some x, Some y) \<Rightarrow> if y = 0 then None else Some (x / y) | _ \<Rightarrow> None)"

definition np_abs :: "real option \<Rightarrow> real option" where
  "np_abs a = (case a of Some x \<Rightarrow> Some \<bar>x\<bar> | None \<Rightarrow> None)"

text \<open>\<^verbatim>\<open>np.mean(arr)\<close>: the sum over the count; \<^verbatim>\<open>nan\<close> on an empty array.\<close>

definition np_mean :: "real list \<Rightarrow> real option" where
  "np_mean arr = (if arr = [] then None else Some (sum_list arr / real (length arr)))"

text \<open>
  \<^verbatim>\<open>np.std(arr, ddof=ddof)\<close>: the square root of the sum of the squared deviations
  from the mean over \<^verbatim>\<open>max(N - ddof, 0)\<close>; undefined when that divisor is zero.
\<close>

definition np_std :: "real list \<Rightarrow> nat \<Rightarrow> real option" where
  "np_std arr ddof =
     (let N = length arr; rcount = N - ddof in
      if rcount = 0 then None
      else
        let arrmean = sum_list arr / real N;
            x = map (\<lambda>a. (a - arrmean) * (a - arrmean)) arr
        in Some (sqrt (sum_list x / real rcount)))"

subsection \<open>The simulation driver\<close>

record sim_result =
  classical :: real
  quantum_mean :: "real option"
  quantum_std :: "real option"
  ci_lower :: "real option"
  ci_upper :: "real option"
  relative_error :: "real option"

text \<open>
  The record that \<^verbatim>\<open>run_simulation\<close> builds in lines 57 to 106, once its calls
  into qiskit have returned. Two things come from outside the repository and are
  parameters here:
  \<^item> \<open>batch_prob sim_idx\<close> is the proportion \<^verbatim>\<open>counts.get('1', 0) / numshots\<close> that
    the simulator backend yields in iteration \<^verbatim>\<open>sim_idx\<close> of the loop, a number
    from 0 to 1 (the circuit, \<^verbatim>\<open>numshots\<close> and \<^verbatim>\<open>print_circuit\<close> act on nothing
    else);
  \<^item> \<open>t_ppf q df\<close> is \<^verbatim>\<open>scipy.stats.t.ppf(q, df=df)\<close>, the quantile function of
    Student's t distribution: \<^const>\<open>None\<close> where scipy yields \<^verbatim>\<open>inf\<close>,
    \<^verbatim>\<open>-inf\<close> or \<^verbatim>\<open>nan\<close> (at a cumulative probability of 0, of 1, or outside
    that range).
  The loop over \<^verbatim>\<open>range(num_simulations)\<close> appends one proportion for each index.
\<close>

definition run_simulation ::
  "(real \<Rightarrow> int \<Rightarrow> real option) \<Rightarrow> (nat \<Rightarrow> real) \<Rightarrow> real list \<Rightarrow> int \<Rightarrow> int \<Rightarrow> real \<Rightarrow>
     sim_result" where
  "run_simulation t_ppf batch_prob p_list k num_simulations confidence_level =
     (let classical_prob = k_out_of_n_variable_p_reliability p_list k;
          quantum_probs = map batch_prob [0..<nat num_simulations];
          mean_quantum = np_mean quantum_probs;
          std_quantum = (if num_simulations > 1 then np_std quantum_probs 1 else Some 0);
          ci = (if num_simulations > 1 then
                  let t_value = t_ppf ((1 + confidence_level) / 2) (num_simulations - 1);
                      se = np_div std_quantum (Some (sqrt (real_of_int num_simulations)));
                      ci_length = np_mul t_value se
                  in (np_sub mean_quantum ci_length, np_add mean_quantum ci_length)
                else (mean_quantum, mean_quantum));
          relative_error =
            np_mul (np_div (np_abs (np_sub mean_quantum (Some classical_prob)))
                      (Some classical_prob)) (Some 100)
      in \<lparr>classical = classical_prob, quantum_mean = mean_quantum, quantum_std = std_quantum,
          ci_lower = fst ci, ci_upper = snd ci, relative_error = relative_error\<rparr>)"

text \<open>
  The call as a whole. Before any statistics, \<^verbatim>\<open>run_simulation\<close> builds the circuit:
  \<^verbatim>\<open>reliability_circuit_variable_p\<close> runs \<^verbatim>\<open>combinations(range(n), r)\<close> for
  \<^verbatim>\<open>r\<close> from \<open>k\<close>, and \<^verbatim>\<open>combinations\<close> raises \<^verbatim>\<open>ValueError\<close> on a
  negative \<^verbatim>\<open>r\<close>. So a call with \<open>k < 0\<close> returns no record. What qiskit itself may
  raise (on \<^verbatim>\<open>numshots = 0\<close>, say) is outside the repository and not modelled.
\<close>

datatype py_error = ValueError

definition run_simulation_call ::
  "(real \<Rightarrow> int \<Rightarrow> real option) \<Rightarrow> (nat \<Rightarrow> real) \<Rightarrow> real list \<Rightarrow> int \<Rightarrow> int \<Rightarrow> real \<Rightarrow>
     py_error + sim_result" where
  "run_simulation_call t_ppf batch_prob p_list k num_simulations confidence_level =
     (if k < 0 then Inl ValueError
      else Inr (run_simulation t_ppf batch_prob p_list k num_simulations confidence_level))"

text \<open>
  The statistics of the specification, in its own words: the mean of the first \<open>m\<close> batch
  proportions and their sample standard deviation (divisor \<open>m - 1\<close>).
\<close>

definition sample_mean :: "(nat \<Rightarrow> real) \<Rightarrow> nat \<Rightarrow> real" where
  "sample_mean x m = (\<Sum>i<m. x i) / real m"

definition sample_std :: "(nat \<Rightarrow> real) \<Rightarrow> nat \<Rightarrow> real" where
  "sample_std x m = sqrt ((\<Sum>i<m. (x i - sample_mean x m)\<^sup>2) / real (m - 1))"


text \<open>
  Concrete runs. With two batches the interval has one degree of freedom, where Student's
  t is the standard Cauchy distribution, whose quantile function is
  \<open>tan (\<pi> (q - 1/2))\<close>: \<^verbatim>\<open>scipy.stats.t.ppf(0.25, df=1)\<close> is \<open>-1\<close> and
  \<^verbatim>\<open>scipy.stats.t.ppf(0.75, df=1)\<close> is \<open>1\<close>. The batches are the proportions
  \<open>0.0\<close> and then \<open>1.0\<close>, as one shot per batch on a component of probability
  one half can give.
\<close>

definition t_ppf_df1 :: "real \<Rightarrow> int \<Rightarrow> real option" where
  "t_ppf_df1 q df = (if 0 < q \<and> q < 1 then Some (tan (pi * (q - 1 / 2))) else None)"

definition batches01 :: "nat \<Rightarrow> real" where
  "batches01 sim_idx = (if sim_idx = 0 then 0 else 1)"

section \<open>Properties of the enumeration and of the benchmark\<close>

lemma foldl_cond_add:
  fixes a :: real
  shows "foldl (\<lambda>t b. if P b then t + f b else t) a xs = a + sum_list (map f (filter P xs))"
  by (induction xs arbitrary: a) simp_all

lemma reliability_sum_list:
  "k_out_of_n_variable_p_reliability p_list k =
     sum_list (map (\<lambda>bits. bits_prob bits p_list)
       (filter (\<lambda>bits. k \<le> sum_list bits) (product_repeat [0, 1] (length p_list))))"
  by (simp add: k_out_of_n_variable_p_reliability_def foldl_cond_add)

lemma product_repeat_Suc_bits:
  "product_repeat [0, 1::int] (Suc n) =
     concat (map (\<lambda>x. [x @ [0], x @ [1]]) (product_repeat [0, 1] n))"
  by simp

lemma assignments_0: "assignments 0 = {[]}"
  by (auto simp: assignments_def)

lemma assignments_Suc:
  "assignments (Suc n) = (\<lambda>x. x @ [0]) ` assignments n \<union> (\<lambda>x. x @ [1]) ` assignments n"
proof (rule set_eqI, rule iffI)
  fix bits assume "bits \<in> assignments (Suc n)"
  then have len: "length bits = Suc n" and bs: "set bits \<subseteq> {0, 1}"
    by (simp_all add: assignments_def)
  from len have ne: "bits \<noteq> []" by auto
  then have split: "bits = butlast bits @ [last bits]" by simp
  have "last bits \<in> set bits" using ne by simp
  then have l: "last bits = 0 \<or> last bits = 1" using bs by auto
  have "set (butlast bits) \<subseteq> {0, 1}" using bs by (meson in_set_butlastD subsetD subsetI)
  then have "butlast bits \<in> assignments n" using len by (simp add: assignments_def)
  then show "bits \<in> (\<lambda>x. x @ [0]) ` assignments n \<union> (\<lambda>x. x @ [1]) ` assignments n"
    using l split by (metis UnI1 UnI2 image_eqI)
next
  fix bits assume "bits \<in> (\<lambda>x. x @ [0]) ` assignments n \<union> (\<lambda>x. x @ [1]) ` assignments n"
  then show "bits \<in> assignments (Suc n)" by (auto simp: assignments_def)
qed

lemma set_concat_pairs:
  "set (concat (map (\<lambda>x. [f x, g x]) xs)) = f ` set xs \<union> g ` set xs"
  by (induction xs) auto

lemma set_product_repeat: "set (product_repeat [0, 1] n) = assignments n"
proof (induction n)
  case 0
  show ?case by (simp add: assignments_0)
next
  case (Suc n)
  show ?case
    unfolding product_repeat_Suc_bits set_concat_pairs Suc.IH assignments_Suc ..
qed

lemma distinct_concat_pairs:
  "distinct xs \<Longrightarrow> distinct (concat (map (\<lambda>x. [x @ [0::int], x @ [1]]) xs))"
  by (induction xs) (auto simp: set_concat_pairs)

lemma distinct_product_repeat: "distinct (product_repeat [0, 1::int] n)"
proof (induction n)
  case 0
  show ?case by simp
next
  case (Suc n)
  then show ?case
    unfolding product_repeat_Suc_bits by (rule distinct_concat_pairs)
qed

lemma foldl_mult:
  fixes a :: real
  shows "foldl (\<lambda>prob x. prob * g x) a xs = a * prod_list (map g xs)"
  by (induction xs arbitrary: a) (simp_all add: mult.assoc)

lemma bits_prob_prod_list:
  "bits_prob bits p_list =
     prod_list (map (\<lambda>(bit, p_i). if bit = 1 then p_i else 1 - p_i) (zip bits p_list))"
proof -
  have "(\<lambda>prob (bit, p_i). prob * (if bit = 1 then p_i else 1 - p_i)) =
        (\<lambda>prob x. prob * (case x of (b, p_i) \<Rightarrow> if b = (1::int) then p_i else 1 - (p_i::real)))"
    by (auto simp: fun_eq_iff)
  then show ?thesis
    unfolding bits_prob_def by (simp add: foldl_mult)
qed

lemma bits_prob_snoc:
  "length bits = length ps \<Longrightarrow>
     bits_prob (bits @ [b]) (ps @ [p]) = bits_prob bits ps * (if b = 1 then p else 1 - p)"
  by (simp add: bits_prob_prod_list)

lemma bits_prob_prod:
  "length bits = length p_list \<Longrightarrow>
     bits_prob bits p_list =
       (\<Prod>i<length p_list. if bits ! i = 1 then p_list ! i else 1 - p_list ! i)"
proof (induction p_list arbitrary: bits rule: rev_induct)
  case Nil
  then show ?case by (simp add: bits_prob_def)
next
  case (snoc p ps)
  from snoc.prems have ne: "bits \<noteq> []" by auto
  define bs where "bs = butlast bits"
  define b where "b = last bits"
  have bits: "bits = bs @ [b]" using ne by (simp add: bs_def b_def)
  have len: "length bs = length ps" using snoc.prems by (simp add: bs_def)
  have "(\<Prod>i<length ps. if (bs @ [b]) ! i = 1 then (ps @ [p]) ! i else 1 - (ps @ [p]) ! i) =
        (\<Prod>i<length ps. if bs ! i = 1 then ps ! i else 1 - ps ! i)"
    using len by (intro prod.cong refl) (simp add: nth_append)
  then show ?case
    using len by (simp add: bits bits_prob_snoc snoc.IH [OF len] nth_append)
qed

lemma sum_list_bits:
  "set bits \<subseteq> {0, 1} \<Longrightarrow> sum_list bits = int (count_list bits 1)"
  by (induction bits) auto

lemma length_product_repeat: "length (product_repeat [0, 1::int] n) = 2 ^ n"
  by (induction n) (simp_all add: length_concat comp_def sum_list_triv)

lemma card_assignments: "card (assignments n) = 2 ^ n"
  using distinct_card [OF distinct_product_repeat, of n]
  by (simp add: set_product_repeat length_product_repeat)

lemma reliability_sum_set:
  "k_out_of_n_variable_p_reliability p_list k =
     (\<Sum>bits \<in> {bits \<in> assignments (length p_list). k \<le> sum_list bits}. bits_prob bits p_list)"
proof -
  let ?xs = "product_repeat [0, 1::int] (length p_list)"
  have "k_out_of_n_variable_p_reliability p_list k =
          (\<Sum>bits \<in> set (filter (\<lambda>bits. k \<le> sum_list bits) ?xs). bits_prob bits p_list)"
    unfolding reliability_sum_list
    by (rule sum_list_distinct_conv_sum_set) (simp add: distinct_product_repeat)
  also have "set (filter (\<lambda>bits. k \<le> sum_list bits) ?xs) =
               {bits \<in> assignments (length p_list). k \<le> sum_list bits}"
    by (simp add: set_product_repeat)
  finally show ?thesis .
qed

lemma finite_assignments: "finite (assignments n)"
  unfolding set_product_repeat [symmetric] by (rule finite_set)

lemma assignments_length: "bits \<in> assignments n \<Longrightarrow> length bits = n"
  by (simp add: assignments_def)

lemma sum_assignments_Suc:
  fixes f :: "int list \<Rightarrow> real"
  shows "(\<Sum>bits \<in> assignments (Suc n). f bits) =
           (\<Sum>bits \<in> assignments n. f (bits @ [0]) + f (bits @ [1]))"
proof -
  let ?A0 = "(\<lambda>x. x @ [0::int]) ` assignments n" and ?A1 = "(\<lambda>x. x @ [1::int]) ` assignments n"
  have disj: "?A0 \<inter> ?A1 = {}" by auto
  have "(\<Sum>bits \<in> assignments (Suc n). f bits) = sum f ?A0 + sum f ?A1"
    unfolding assignments_Suc
    by (rule sum.union_disjoint) (simp_all add: finite_assignments disj)
  also have "sum f ?A0 = (\<Sum>bits \<in> assignments n. f (bits @ [0]))"
    by (subst sum.reindex) (simp_all add: inj_on_def)
  also have "sum f ?A1 = (\<Sum>bits \<in> assignments n. f (bits @ [1]))"
    by (subst sum.reindex) (simp_all add: inj_on_def)
  finally show ?thesis by (simp add: sum.distrib)
qed

lemma bits_prob_total: "(\<Sum>bits \<in> assignments (length p_list). bits_prob bits p_list) = 1"
proof (induction p_list rule: rev_induct)
  case Nil
  show ?case by (simp add: assignments_0 bits_prob_def)
next
  case (snoc p ps)
  have "(\<Sum>bits \<in> assignments (length (ps @ [p])). bits_prob bits (ps @ [p])) =
        (\<Sum>bits \<in> assignments (length ps).
           bits_prob (bits @ [0]) (ps @ [p]) + bits_prob (bits @ [1]) (ps @ [p]))"
    by (simp add: sum_assignments_Suc)
  also have "\<dots> = (\<Sum>bits \<in> assignments (length ps). bits_prob bits ps)"
  proof (rule sum.cong [OF refl])
    fix bits assume "bits \<in> assignments (length ps)"
    then have "length bits = length ps" by (rule assignments_length)
    then show "bits_prob (bits @ [0]) (ps @ [p]) + bits_prob (bits @ [1]) (ps @ [p]) =
               bits_prob bits ps"
      by (simp add: bits_prob_snoc algebra_simps)
  qed
  finally show ?case using snoc.IH by simp
qed

lemma sum_list_bits_nonneg: "set bits \<subseteq> {0, 1::int} \<Longrightarrow> 0 \<le> sum_list bits"
  by (induction bits) auto

lemma sum_list_bits_le: "set bits \<subseteq> {0, 1::int} \<Longrightarrow> sum_list bits \<le> int (length bits)"
  by (induction bits) auto

lemma sum_list_bits_full:
  "set bits \<subseteq> {0, 1::int} \<Longrightarrow>
     int (length bits) \<le> sum_list bits \<longleftrightarrow> bits = replicate (length bits) 1"
proof (induction bits)
  case Nil
  show ?case by simp
next
  case (Cons b bits)
  then have bs: "set bits \<subseteq> {0, 1}" and b: "b = 0 \<or> b = 1" by auto
  from sum_list_bits_le [OF bs] Cons.IH [OF bs] b show ?case by auto
qed

lemma sum_list_bits_none:
  "set bits \<subseteq> {0, 1::int} \<Longrightarrow> \<not> 1 \<le> sum_list bits \<longleftrightarrow> bits = replicate (length bits) 0"
proof (induction bits)
  case Nil
  show ?case by simp
next
  case (Cons b bits)
  then have bs: "set bits \<subseteq> {0, 1}" and b: "b = 0 \<or> b = 1" by auto
  from sum_list_bits_nonneg [OF bs] Cons.IH [OF bs] b show ?case by auto
qed

lemma bits_prob_replicate:
  "bits_prob (replicate n b) (replicate n p) = (if b = 1 then p else 1 - p) ^ n"
  by (simp add: bits_prob_prod_list zip_replicate)

lemma bits_prob_nonneg:
  assumes "\<forall>p \<in> set p_list. 0 \<le> p \<and> p \<le> 1"
  shows "0 \<le> bits_prob bits p_list"
  unfolding bits_prob_prod_list
proof (rule prod_list_nonneg)
  fix x assume "x \<in> set (map (\<lambda>(b, p_i). if b = 1 then p_i else 1 - p_i) (zip bits p_list))"
  then obtain b p where "(b, p) \<in> set (zip bits p_list)" and x: "x = (if b = 1 then p else 1 - p)"
    by auto
  then have "p \<in> set p_list" by (meson set_zip_rightD)
  with assms x show "0 \<le> x" by auto
qed

section \<open>Properties of the batch statistics\<close>

lemma sum_list_batches: "sum_list (map x [0..<m]) = (\<Sum>i<m. x i)"
  by (simp add: interv_sum_list_conv_sum_set_nat atLeast0LessThan)

lemma np_mean_batches:
  "0 < m \<Longrightarrow> np_mean (map x [0..<m]) = Some (sample_mean x m)"
  by (simp add: np_mean_def sample_mean_def sum_list_batches)

lemma np_mean_empty: "np_mean [] = None"
  by (simp add: np_mean_def)

lemma np_std_batches:
  assumes "1 < m"
  shows "np_std (map x [0..<m]) (Suc 0) = Some (sample_std x m)"
proof -
  have "sum_list (map (\<lambda>a. (a - sample_mean x m) * (a - sample_mean x m)) (map x [0..<m])) =
          (\<Sum>i<m. (x i - sample_mean x m)\<^sup>2)"
    by (simp add: comp_def interv_sum_list_conv_sum_set_nat atLeast0LessThan power2_eq_square)
  then show ?thesis
    using assms by (simp add: np_std_def Let_def sample_std_def sample_mean_def sum_list_batches)
qed

lemma ci_many:
  fixes t_ppf :: "real \<Rightarrow> int \<Rightarrow> real option" and batch_prob :: "nat \<Rightarrow> real" and p_list :: "real list"
    and k num_simulations :: int and confidence_level :: real
  assumes "1 < num_simulations"
  defines "m \<equiv> nat num_simulations"
  defines "r \<equiv> run_simulation t_ppf batch_prob p_list k num_simulations confidence_level"
  defines "t \<equiv> t_ppf ((1 + confidence_level) / 2) (num_simulations - 1)"
  defines "se \<equiv> sample_std batch_prob m / sqrt (real m)"
  shows "quantum_mean r = Some (sample_mean batch_prob m)"
    and "quantum_std r = Some (sample_std batch_prob m)"
    and "ci_lower r = np_sub (Some (sample_mean batch_prob m)) (np_mul t (Some se))"
    and "ci_upper r = np_add (Some (sample_mean batch_prob m)) (np_mul t (Some se))"
proof -
  have m: "1 < m" "0 < m" using assms(1) by (simp_all add: m_def)
  have sq: "sqrt (real_of_int num_simulations) = sqrt (real m)" "sqrt (real m) \<noteq> 0"
    using assms(1) by (simp_all add: m_def)
  show "quantum_mean r = Some (sample_mean batch_prob m)"
    by (simp add: r_def run_simulation_def Let_def m_def [symmetric] np_mean_batches [OF m(2)])
  show "quantum_std r = Some (sample_std batch_prob m)"
    using assms(1)
    by (simp add: r_def run_simulation_def Let_def m_def [symmetric] np_std_batches [OF m(1)])
  show "ci_lower r = np_sub (Some (sample_mean batch_prob m)) (np_mul t (Some se))"
    using assms(1) sq(2)
    by (simp add: r_def run_simulation_def Let_def m_def [symmetric] np_mean_batches [OF m(2)]
        np_std_batches [OF m(1)] np_div_def sq(1) t_def se_def)
  show "ci_upper r = np_add (Some (sample_mean batch_prob m)) (np_mul t (Some se))"
    using assms(1) sq(2)
    by (simp add: r_def run_simulation_def Let_def m_def [symmetric] np_mean_batches [OF m(2)]
        np_std_batches [OF m(1)] np_div_def sq(1) t_def se_def)
qed



lemma relative_error_defined:
  assumes "k_out_of_n_variable_p_reliability p_list k \<noteq> 0" and "1 \<le> num_simulations"
  shows "relative_error (run_simulation t_ppf batch_prob p_list k num_simulations confidence_level) =
           Some (\<bar>sample_mean batch_prob (nat num_simulations) -
                   k_out_of_n_variable_p_reliability p_list k\<bar> /
                 k_out_of_n_variable_p_reliability p_list k * 100)"
proof -
  have "0 < nat num_simulations" using assms(2) by simp
  then show ?thesis
    using assms(1)
    by (simp add: run_simulation_def Let_def np_mean_batches np_div_def np_mul_def np_abs_def
        np_sub_def)
qed

lemma sample_mean_batches01: "sample_mean batches01 2 = 1 / 2"
  by (simp add: sample_mean_def batches01_def lessThan_Suc numeral_2_eq_2)

lemma sample_std_batches01: "sample_std batches01 2 / sqrt 2 = 1 / 2"
proof -
  have "(\<Sum>i<2. (batches01 i - 1 / 2)\<^sup>2) = 1 / 2"
    by (simp add: batches01_def lessThan_Suc numeral_2_eq_2 power2_eq_square)
  then have "sample_std batches01 2 = sqrt (1 / 2)"
    by (simp add: sample_std_def sample_mean_batches01)
  then have "sample_std batches01 2 / sqrt 2 = sqrt ((1 / 2) / 2)"
    by (simp only: real_sqrt_divide [symmetric])
  also have "\<dots> = sqrt ((1 / 2)\<^sup>2)" by (simp add: power2_eq_square)
  also have "\<dots> = 1 / 2" by simp
  finally show ?thesis .
qed


lemma t_ppf_df1_three_quarters: "t_ppf_df1 (3 / 4) df = Some 1"
proof -
  have "pi * (3 / 4 - 1 / 2) = pi / 4" by simp
  then show ?thesis by (simp add: t_ppf_df1_def tan_45)
qed

lemma run_simulation_call_negative_k:
  "k < 0 \<Longrightarrow>
     run_simulation_call t_ppf batch_prob p_list k num_simulations confidence_level =
       Inl ValueError"
  by (simp add: run_simulation_call_def)


section \<open>The claims\<close>

text \<open>
  Claim C1. For every probability vector \<open>p_list\<close> of length \<open>n\<close> and every integer
  \<open>k\<close>, \<^verbatim>\<open>k_out_of_n_variable_p_reliability(p_list, k)\<close> returns the sum, over all
  bit assignments of length \<open>n\<close> with at least \<open>k\<close> ones, of the product over the
  components of \<open>p_i\<close> where the bit is 1 and \<open>1 - p_i\<close> where it is 0. There are
  \<open>2 ^ n\<close> assignments (\<open>card_assignments\<close>).
\<close>

theorem reliability_is_assignment_sum:
  "k_out_of_n_variable_p_reliability p_list k = spec_reliability p_list k"
proof -
  let ?n = "length p_list"
  have "{bits \<in> assignments ?n. k \<le> sum_list bits} =
          {bits \<in> assignments ?n. k \<le> int (count_list bits 1)}"
    by (auto simp: assignments_def sum_list_bits)
  then have "k_out_of_n_variable_p_reliability p_list k =
          (\<Sum>bits \<in> {bits \<in> assignments ?n. k \<le> int (count_list bits 1)}. bits_prob bits p_list)"
    by (simp only: reliability_sum_set)
  also have "\<dots> = spec_reliability p_list k"
    unfolding spec_reliability_def
    by (intro sum.cong refl bits_prob_prod) (simp add: assignments_def)
  finally show ?thesis .
qed

text \<open>
  Claim C2. Whenever the exact probability is zero, the relative error of
  \<^verbatim>\<open>run_simulation\<close> is a division by zero: it has no value, whatever the batches,
  their count and the confidence level are. (With a non-zero exact probability and at
  least one batch it has one: \<open>relative_error_defined\<close>.)
\<close>

theorem relative_error_undefined_at_zero:
  "k_out_of_n_variable_p_reliability p_list k = 0 \<Longrightarrow>
     relative_error (run_simulation t_ppf batch_prob p_list k num_simulations confidence_level) = None"
  by (simp add: run_simulation_def Let_def np_div_def np_mul_def np_abs_def np_sub_def
      split: option.splits)

theorem relative_error_undefined_at_zero_witness:
  "relative_error (run_simulation t_ppf_df1 batches01 [1 / 2] 2 2 (19 / 20)) = None"
  using relative_error_undefined_at_zero [of "[1 / 2]" 2 t_ppf_df1 batches01 2 "19 / 20"]
  by (simp add: k_out_of_n_variable_p_reliability_def bits_prob_def)

text \<open>
  Claim C3. For every batch count \<open>m > 1\<close>, every confidence level and every sequence
  of batch proportions, the bounds of the confidence interval are
  \<open>mean \<plusminus> t * s / sqrt m\<close>, where \<open>s\<close> is the sample standard deviation of the
  proportions (divisor \<open>m - 1\<close>) and \<open>t\<close> is the Student-t quantile at
  \<open>(1 + confidence_level) / 2\<close> with \<open>m - 1\<close> degrees of freedom. Where the quantile
  is not a finite number, neither are the bounds.
\<close>

theorem ci_bounds_student_t:
  fixes t_ppf :: "real \<Rightarrow> int \<Rightarrow> real option" and batch_prob :: "nat \<Rightarrow> real" and p_list :: "real list"
    and k num_simulations :: int and confidence_level :: real
  assumes "1 < num_simulations"
  shows "case t_ppf ((1 + confidence_level) / 2) (num_simulations - 1) of
           Some t \<Rightarrow>
             ci_lower (run_simulation t_ppf batch_prob p_list k num_simulations confidence_level) =
               Some (sample_mean batch_prob (nat num_simulations) -
                     t * sample_std batch_prob (nat num_simulations) /
                       sqrt (real (nat num_simulations))) \<and>
             ci_upper (run_simulation t_ppf batch_prob p_list k num_simulations confidence_level) =
               Some (sample_mean batch_prob (nat num_simulations) +
                     t * sample_std batch_prob (nat num_simulations) /
                       sqrt (real (nat num_simulations)))
         | None \<Rightarrow>
             ci_lower (run_simulation t_ppf batch_prob p_list k num_simulations confidence_level) =
               None \<and>
             ci_upper (run_simulation t_ppf batch_prob p_list k num_simulations confidence_level) =
               None"
  using ci_many(3) [OF assms] ci_many(4) [OF assms]
  by (simp add: np_sub_def np_add_def np_mul_def split: option.splits)

theorem ci_bounds_student_t_witness:
  "ci_lower (run_simulation t_ppf_df1 batches01 [1 / 2] 1 2 (1 / 2)) = Some 0 \<and>
   ci_upper (run_simulation t_ppf_df1 batches01 [1 / 2] 1 2 (1 / 2)) = Some 1"
  using ci_bounds_student_t [where num_simulations = 2 and t_ppf = t_ppf_df1
      and confidence_level = "1 / 2" and batch_prob = batches01 and p_list = "[1 / 2]" and k = 1]
  by (simp add: t_ppf_df1_three_quarters sample_mean_batches01 sample_std_batches01)




text \<open>
  Claim C5. With a batch count of 1, both bounds of the confidence interval are the point
  estimate: the proportion of the single batch, which is the mean.
\<close>

theorem ci_single_batch:
  "num_simulations = 1 \<Longrightarrow>
     quantum_mean (run_simulation t_ppf batch_prob p_list k num_simulations confidence_level) =
       Some (batch_prob 0) \<and>
     ci_lower (run_simulation t_ppf batch_prob p_list k num_simulations confidence_level) =
       Some (batch_prob 0) \<and>
     ci_upper (run_simulation t_ppf batch_prob p_list k num_simulations confidence_level) =
       Some (batch_prob 0)"
  by (simp add: run_simulation_def Let_def np_mean_def)

theorem ci_single_batch_witness:
  "quantum_mean (run_simulation t_ppf_df1 batches01 [1 / 2] 1 1 (19 / 20)) = Some 0 \<and>
   ci_lower (run_simulation t_ppf_df1 batches01 [1 / 2] 1 1 (19 / 20)) = Some 0 \<and>
   ci_upper (run_simulation t_ppf_df1 batches01 [1 / 2] 1 1 (19 / 20)) = Some 0"
  using ci_single_batch [of 1 t_ppf_df1 batches01 "[1 / 2]" 1 "19 / 20"]
  by (simp add: batches01_def)

text \<open>
  In exact arithmetic, the benchmark at \<open>k = 0\<close> is 1 for every probability vector.
\<close>

lemma exact_reliability_k_zero: "k_out_of_n_variable_p_reliability p_list 0 = 1"
proof -
  have "{bits \<in> assignments (length p_list). 0 \<le> sum_list bits} = assignments (length p_list)"
    by (auto simp: assignments_def sum_list_bits_nonneg)
  then show ?thesis by (simp add: reliability_sum_set bits_prob_total)
qed

text \<open>
  Claim C7. For every probability vector of length \<open>n\<close> and every \<open>k > n\<close>, the
  exact probability is 0.
\<close>

theorem reliability_k_above_n: "int (length p_list) < k \<Longrightarrow> k_out_of_n_variable_p_reliability p_list k = 0"
proof -
  assume k: "int (length p_list) < k"
  have "{bits \<in> assignments (length p_list). k \<le> sum_list bits} = {}"
    using k sum_list_bits_le by (fastforce simp: assignments_def)
  then have "(\<Sum>bits \<in> {bits \<in> assignments (length p_list). k \<le> sum_list bits}.
           bits_prob bits p_list) = 0"
    by (simp only: sum.empty)
  then show ?thesis by (simp only: reliability_sum_set)
qed

theorem reliability_k_above_n_witness:
  "k_out_of_n_variable_p_reliability [1 / 2, 1 / 4] 3 = 0"
  using reliability_k_above_n [of "[1 / 2, 1 / 4]" 3] by simp

text \<open>
  In exact arithmetic, for \<open>n\<close> components of the same probability \<open>p\<close> and
  \<open>k = n\<close>, the benchmark is \<open>p ^ n\<close>, for every \<open>n \<ge> 0\<close>.
\<close>

lemma exact_reliability_iid_all: "k_out_of_n_variable_p_reliability (replicate n p) (int n) = p ^ n"
proof -
  have "{bits \<in> assignments n. int n \<le> sum_list bits} = {replicate n 1}"
  proof (rule set_eqI, rule iffI)
    fix bits assume "bits \<in> {bits \<in> assignments n. int n \<le> sum_list bits}"
    then have "length bits = n" "set bits \<subseteq> {0, 1}" "int n \<le> sum_list bits"
      by (simp_all add: assignments_def)
    then show "bits \<in> {replicate n 1}" using sum_list_bits_full [of bits] by simp
  next
    fix bits :: "int list" assume "bits \<in> {replicate n 1}"
    then show "bits \<in> {bits \<in> assignments n. int n \<le> sum_list bits}"
      by (auto simp: assignments_def sum_list_replicate)
  qed
  then have "(\<Sum>bits \<in> {bits \<in> assignments n. int n \<le> sum_list bits}.
           bits_prob bits (replicate n p)) = bits_prob (replicate n 1) (replicate n p)"
    by (simp only: sum.insert finite.emptyI sum.empty empty_iff not_False_eq_True add_0_right)
  then show ?thesis by (simp add: reliability_sum_set bits_prob_replicate)
qed

text \<open>
  In exact arithmetic, for \<open>n\<close> components of the same probability \<open>p\<close> and
  \<open>k = 1\<close>, the benchmark is \<open>1 - (1 - p) ^ n\<close>: for every \<open>n \<ge> 1\<close>, and for
  \<open>n = 0\<close> as well, where both sides are 0.
\<close>

lemma exact_reliability_iid_one: "k_out_of_n_variable_p_reliability (replicate n p) 1 = 1 - (1 - p) ^ n"
proof -
  let ?ps = "replicate n p"
  have set_eq: "{bits \<in> assignments n. 1 \<le> sum_list bits} = assignments n - {replicate n 0}"
    using sum_list_bits_none by (auto simp: assignments_def)
  have mem: "replicate n 0 \<in> assignments n" by (auto simp: assignments_def)
  have "k_out_of_n_variable_p_reliability ?ps 1 =
          (\<Sum>bits \<in> assignments n - {replicate n 0}. bits_prob bits ?ps)"
    by (simp add: reliability_sum_set set_eq)
  also have "\<dots> = (\<Sum>bits \<in> assignments n. bits_prob bits ?ps) - bits_prob (replicate n 0) ?ps"
    using mem by (simp add: sum_diff1 finite_assignments)
  also have "(\<Sum>bits \<in> assignments n. bits_prob bits ?ps) = 1"
    using bits_prob_total [of ?ps] by simp
  finally show ?thesis by (simp add: bits_prob_replicate)
qed

text \<open>
  In exact arithmetic, for every probability vector with all entries in \<open>[0, 1]\<close> and
  every integer \<open>k\<close>, the benchmark lies in \<open>[0, 1]\<close>.
\<close>

lemma exact_reliability_in_unit_interval:
  assumes "\<forall>p \<in> set p_list. 0 \<le> p \<and> p \<le> 1"
  shows "0 \<le> k_out_of_n_variable_p_reliability p_list k \<and>
         k_out_of_n_variable_p_reliability p_list k \<le> 1"
proof
  show "0 \<le> k_out_of_n_variable_p_reliability p_list k"
    unfolding reliability_sum_set by (rule sum_nonneg) (simp add: bits_prob_nonneg [OF assms])
  have "(\<Sum>bits \<in> {bits \<in> assignments (length p_list). k \<le> sum_list bits}. bits_prob bits p_list)
          \<le> (\<Sum>bits \<in> assignments (length p_list). bits_prob bits p_list)"
    by (rule sum_mono2) (auto simp: finite_assignments bits_prob_nonneg [OF assms])
  then show "k_out_of_n_variable_p_reliability p_list k \<le> 1"
    by (simp add: reliability_sum_set bits_prob_total)
qed

lemma exact_reliability_in_unit_interval_example:
  "0 \<le> k_out_of_n_variable_p_reliability [1 / 2, 1 / 4] 1 \<and>
   k_out_of_n_variable_p_reliability [1 / 2, 1 / 4] 1 \<le> 1"
  using exact_reliability_in_unit_interval [of "[1 / 2, 1 / 4]" 1] by simp

end
